theory Spec2Isabelle
  imports Main "HOL-Library.Word" "HOL-Library.Sublist"
begin

section \<open>Values shared by the components\<close>

text \<open>
  A JavaScript error value (what a \<open>catch (e)\<close> binds, what a promise rejects with) is
  kept as its message.
\<close>

type_synonym js_error = string

text \<open>
  An \<open>ArrayBuffer\<close>. The code never writes into a buffer; what matters is its content and
  which object it is (a buffer handed to a worker may be detached, which is why the source
  clones before every hand-off). \<open>ident\<close> is the object's identity.
\<close>

record buffer =
  ident :: nat
  bytes :: "8 word list"

text \<open>
  \<open>cloneData\<close> (reader.jsx, line 40):
  \<^verbatim>\<open>typeof structuredClone === 'function' ? structuredClone(data) : data.slice(0)\<close>.
  Both branches allocate a new buffer with the same content. The first argument is the
  next unused object identity; the result carries the one after it.
\<close>

definition cloneData :: "nat \<Rightarrow> buffer \<Rightarrow> buffer \<times> nat" where
  "cloneData fresh d = (\<lparr>ident = fresh, bytes = bytes d\<rparr>, Suc fresh)"

text \<open>
  An item of the store (an attachment or an annotation): the fields the reader reads by
  name, and the remaining ones as an association list.
\<close>

record item =
  key :: string
  itemType :: string
  contentType :: string
  filename :: string
  deleted :: bool
  otherFields :: "(string \<times> string) list"

text \<open>An annotation in the shape the embedded viewer takes (the result of
  \<open>annotationItemToJSON\<close>).\<close>

type_synonym reader_annotation = "(string \<times> string) list"

section \<open>The reader's local state and its reducer\<close>

text \<open>reader.jsx, lines 28-30: the two lifecycles share the numbers 0, 1, 2.\<close>

definition UNFETCHED :: nat where "UNFETCHED = 0"
definition NOT_IMPORTED :: nat where "NOT_IMPORTED = 0"
definition FETCHING :: nat where "FETCHING = 1"
definition IMPORTING :: nat where "IMPORTING = 1"
definition FETCHED :: nat where "FETCHED = 2"
definition IMPORTED :: nat where "IMPORTED = 2"

text \<open>
  The actions \<open>dispatchState\<close> is called with. \<open>OTHER\<close> stands for an action of any other
  type, which the reducer's \<open>default\<close> branch receives.
\<close>

datatype reader_action =
    BEGIN_FETCH_DATA
  | COMPLETE_FETCH_DATA buffer
  | ERROR_FETCH_DATA js_error
  | BEGIN_IMPORT_ANNOTATIONS
  | COMPLETE_IMPORT_ANNOTATIONS "reader_annotation list"
  | ERROR_IMPORT_ANNOTATIONS js_error
  | SKIP_IMPORT_ANNOTATIONS
  | READY
  | ROTATE_PAGES "nat list" int
  | ROTATING_PAGES
  | ROTATED_PAGES buffer
  | OTHER string

text \<open>
  reader.jsx, lines 176-183: the state \<open>useReducer\<close> starts from. \<open>error\<close> is absent
  from the initial object (\<open>None\<close>) and appears once an error action has been reduced.
\<close>

record reader_state =
  action :: "reader_action option"
  isReady :: bool
  data :: "buffer option"
  dataState :: nat
  annotationsState :: nat
  importedAnnotations :: "reader_annotation list"
  error :: "js_error option"

definition initial_state :: reader_state where
  "initial_state =
     \<lparr>action = None, isReady = False, data = None, dataState = UNFETCHED,
      annotationsState = NOT_IMPORTED, importedAnnotations = [], error = None\<rparr>"

text \<open>reader.jsx, lines 103-130.\<close>

fun readerReducer :: "reader_state \<Rightarrow> reader_action \<Rightarrow> reader_state" where
  "readerReducer s BEGIN_FETCH_DATA = s\<lparr>dataState := FETCHING\<rparr>"
| "readerReducer s (COMPLETE_FETCH_DATA d) = s\<lparr>dataState := FETCHED, data := Some d\<rparr>"
| "readerReducer s (ERROR_FETCH_DATA e) = s\<lparr>dataState := UNFETCHED, error := Some e\<rparr>"
| "readerReducer s BEGIN_IMPORT_ANNOTATIONS = s\<lparr>annotationsState := IMPORTING\<rparr>"
| "readerReducer s (COMPLETE_IMPORT_ANNOTATIONS ias) =
     s\<lparr>annotationsState := IMPORTED, importedAnnotations := ias\<rparr>"
| "readerReducer s (ERROR_IMPORT_ANNOTATIONS e) =
     s\<lparr>annotationsState := IMPORTED, error := Some e\<rparr>"
| "readerReducer s SKIP_IMPORT_ANNOTATIONS = s\<lparr>annotationsState := IMPORTED\<rparr>"
| "readerReducer s READY = s\<lparr>isReady := True\<rparr>"
| "readerReducer s (ROTATE_PAGES pageIndexes degrees) =
     s\<lparr>action := Some (ROTATE_PAGES pageIndexes degrees)\<rparr>"
| "readerReducer s ROTATING_PAGES = s\<lparr>action := None\<rparr>"
| "readerReducer s (ROTATED_PAGES d) = s\<lparr>action := None, data := Some d\<rparr>"
| "readerReducer s (OTHER t) = s"

section \<open>What a render of the reader reads\<close>

text \<open>JavaScript truthiness of a possibly undefined flag and of a possibly undefined
  string (\<open>undefined\<close> and the empty string are falsy).\<close>

fun truthy_flag :: "bool option \<Rightarrow> bool" where
  "truthy_flag None = False"
| "truthy_flag (Some b) = b"

fun truthy_string :: "string option \<Rightarrow> bool" where
  "truthy_string None = False"
| "truthy_string (Some u) = (u \<noteq> [])"

text \<open>
  The values one render of \<open>Reader\<close> takes from the store and from hooks (reader.jsx,
  lines 137-196). \<open>now\<close> is what \<open>Date.now()\<close> returns during the render, \<open>timestamp\<close> the
  selector's value after its \<open>?? 0\<close>; \<open>prevAnnotations\<close> and \<open>wasBusy\<close> are
  \<open>usePrevious\<close> values, undefined on the first render.
\<close>

record reader_props =
  attachmentKey :: "string option"
  attachmentItem :: "item option"
  url :: "string option"
  timestamp :: int
  isFetchingUrl :: bool
  now :: int
  isFetched :: bool
  isFetchingUserLibrarySettings :: "bool option"
  annotations :: "item list"
  prevAnnotations :: "item list option"
  isCreating :: bool
  isUpdating :: bool
  wasBusy :: "bool option"

text \<open>reader.jsx, line 165: \<^verbatim>\<open>const isBusy = isCreating || isUpdating;\<close>\<close>

definition reader_isBusy :: "reader_props \<Rightarrow> bool" where
  "reader_isBusy p = (isCreating p \<or> isUpdating p)"

text \<open>reader.jsx, line 191:
  \<^verbatim>\<open>const urlIsFresh = !!(url && (Date.now() - timestamp) < 60000);\<close>\<close>

definition urlIsFresh :: "reader_props \<Rightarrow> bool" where
  "urlIsFresh p = (truthy_string (url p) \<and> now p - timestamp p < 60000)"

text \<open>What the component dispatches to the application store.\<close>

type_synonym payload = string

datatype store_action =
    TryGetAttachmentURL "string option"
  | PatchAttachment string buffer payload
  | UploadAttachment string string buffer
  | ERROR_PROCESSING_ANNOTATIONS string

section \<open>The effects that drive the local state\<close>

text \<open>
  Each effect is the list of actions its body dispatches synchronously when it runs with
  the props and the state of the render. What an asynchronous continuation dispatches
  later is a function of how the awaited promise settled.
\<close>

text \<open>reader.jsx, lines 355-359: fetch attachment URL.\<close>

definition fetch_url_effect :: "reader_props \<Rightarrow> store_action list" where
  "fetch_url_effect p =
     (if \<not> urlIsFresh p \<and> \<not> isFetchingUrl p then [TryGetAttachmentURL (attachmentKey p)]
      else [])"

text \<open>reader.jsx, lines 362-374: fetch attachment binary data. When the guard holds the
  body dispatches \<open>BEGIN_FETCH_DATA\<close> and starts \<open>fetch(url)\<close>.\<close>

definition fetch_data_guard :: "reader_props \<Rightarrow> reader_state \<Rightarrow> bool" where
  "fetch_data_guard p s = (urlIsFresh p \<and> dataState s = UNFETCHED)"

definition fetch_data_effect :: "reader_props \<Rightarrow> reader_state \<Rightarrow> reader_action list" where
  "fetch_data_effect p s = (if fetch_data_guard p s then [BEGIN_FETCH_DATA] else [])"

fun fetch_data_settled :: "js_error + buffer \<Rightarrow> reader_action" where
  "fetch_data_settled (Inr d) = COMPLETE_FETCH_DATA d"
| "fetch_data_settled (Inl e) = ERROR_FETCH_DATA e"

text \<open>\<open>Array.prototype.map\<close> with a callback that may throw: the first throw ends the
  whole call.\<close>

fun map_throwing :: "('a \<Rightarrow> js_error + 'b) \<Rightarrow> 'a list \<Rightarrow> js_error + 'b list" where
  "map_throwing f [] = Inr []"
| "map_throwing f (x # xs) =
     (case f x of
        Inl e \<Rightarrow> Inl e
      | Inr y \<Rightarrow> (case map_throwing f xs of Inl e \<Rightarrow> Inl e | Inr ys \<Rightarrow> Inr (y # ys)))"

text \<open>
  reader.jsx, lines 377-397: import external annotations. \<open>import_starts_worker\<close> says
  whether the body reaches \<open>pdfWorker.import\<close>; \<open>import_settled\<close> is the rest of the
  \<open>try\<close> once that promise has settled (\<open>annotationItemToJSON\<close> lives outside this file
  set and is a parameter).
\<close>

definition import_guard :: "reader_props \<Rightarrow> reader_state \<Rightarrow> bool" where
  "import_guard p s =
     (attachmentItem p \<noteq> None \<and> dataState s = FETCHED \<and> annotationsState s = NOT_IMPORTED)"

definition import_effect :: "reader_props \<Rightarrow> reader_state \<Rightarrow> reader_action list" where
  "import_effect p s =
     (case attachmentItem p of
        None \<Rightarrow> []
      | Some att \<Rightarrow>
          if dataState s = FETCHED \<and> annotationsState s = NOT_IMPORTED then
            BEGIN_IMPORT_ANNOTATIONS #
              (if contentType att \<noteq> ''application/pdf'' then [SKIP_IMPORT_ANNOTATIONS] else [])
          else [])"

definition import_starts_worker :: "reader_props \<Rightarrow> reader_state \<Rightarrow> bool" where
  "import_starts_worker p s =
     (case attachmentItem p of
        None \<Rightarrow> False
      | Some att \<Rightarrow>
          dataState s = FETCHED \<and> annotationsState s = NOT_IMPORTED \<and>
          contentType att = ''application/pdf'')"

definition import_settled ::
  "(item \<Rightarrow> js_error + reader_annotation) \<Rightarrow> js_error + item list \<Rightarrow> reader_action" where
  "import_settled annotationItemToJSON r =
     (case r of
        Inl e \<Rightarrow> ERROR_IMPORT_ANNOTATIONS e
      | Inr ias \<Rightarrow>
          (case map_throwing annotationItemToJSON ias of
             Inl e \<Rightarrow> ERROR_IMPORT_ANNOTATIONS e
           | Inr mapped \<Rightarrow> COMPLETE_IMPORT_ANNOTATIONS mapped))"

text \<open>reader.jsx, lines 399-403: the readiness gate.\<close>

definition ready_effect :: "reader_props \<Rightarrow> reader_state \<Rightarrow> reader_action list" where
  "ready_effect p s =
     (if \<not> isReady s \<and> isFetched p \<and> data s \<noteq> None \<and> annotationsState s = IMPORTED \<and>
         \<not> truthy_flag (isFetchingUserLibrarySettings p)
      then [READY] else [])"

text \<open>reader.jsx, lines 431-436: a pending rotation is taken up once the reader is ready.
  The body dispatches \<open>ROTATING_PAGES\<close> and calls \<open>rotatePages\<close>.\<close>

fun is_rotate_request :: "reader_action option \<Rightarrow> bool" where
  "is_rotate_request (Some (ROTATE_PAGES pageIndexes degrees)) = True"
| "is_rotate_request _ = False"

definition rotate_guard :: "reader_state \<Rightarrow> bool" where
  "rotate_guard s = (isReady s \<and> is_rotate_request (action s))"

definition rotate_effect :: "reader_state \<Rightarrow> reader_action list" where
  "rotate_effect s = (if rotate_guard s then [ROTATING_PAGES] else [])"

section \<open>One mount of the reader as a transition system\<close>

text \<open>
  The local state together with the asynchronous operations in flight. An event is a
  render followed by its effects, the settling of a promise an effect is waiting for, or
  the viewer's \<open>onRotatePages\<close> callback. Effects read the state of their render and
  their actions are reduced in the order of the source; an event that cannot happen in
  the current state (a promise nobody awaits, a callback of a viewer that does not exist
  yet) leaves the system as it is. The state an effect reads is the one its actions are
  reduced on: no other dispatch comes between a render and its effects.
\<close>

record reader_sys =
  local_state :: reader_state
  fetchInFlight :: bool
  importInFlight :: bool
  rotationsInFlight :: nat

datatype reader_event =
    Render reader_props
  | FetchSettled "js_error + buffer"
  | ImportSettled "js_error + item list"
  | ViewerRotatePages "nat list" int
  | RotateSettled buffer

definition initial_sys :: reader_sys where
  "initial_sys =
     \<lparr>local_state = initial_state, fetchInFlight = False, importInFlight = False,
      rotationsInFlight = 0\<rparr>"

definition render_actions :: "reader_props \<Rightarrow> reader_state \<Rightarrow> reader_action list" where
  "render_actions p s =
     fetch_data_effect p s @ import_effect p s @ ready_effect p s @ rotate_effect s"

fun sys_step ::
  "(item \<Rightarrow> js_error + reader_annotation) \<Rightarrow> reader_sys \<Rightarrow> reader_event \<Rightarrow> reader_sys" where
  "sys_step toJSON y (Render p) =
     (let s = local_state y in
      \<lparr>local_state = foldl readerReducer s (render_actions p s),
       fetchInFlight = (fetchInFlight y \<or> fetch_data_guard p s),
       importInFlight = (importInFlight y \<or> import_starts_worker p s),
       rotationsInFlight = rotationsInFlight y + (if rotate_guard s then 1 else 0)\<rparr>)"
| "sys_step toJSON y (FetchSettled r) =
     (if fetchInFlight y
      then y\<lparr>local_state := readerReducer (local_state y) (fetch_data_settled r),
             fetchInFlight := False\<rparr>
      else y)"
| "sys_step toJSON y (ImportSettled r) =
     (if importInFlight y
      then y\<lparr>local_state := readerReducer (local_state y) (import_settled toJSON r),
             importInFlight := False\<rparr>
      else y)"
| "sys_step toJSON y (ViewerRotatePages pageIndexes degrees) =
     (if isReady (local_state y)
      then y\<lparr>local_state := readerReducer (local_state y) (ROTATE_PAGES pageIndexes degrees)\<rparr>
      else y)"
| "sys_step toJSON y (RotateSettled d) =
     (if 0 < rotationsInFlight y
      then y\<lparr>local_state := readerReducer (local_state y) (ROTATED_PAGES d),
             rotationsInFlight := rotationsInFlight y - 1\<rparr>
      else y)"

text \<open>The states a sequence of events passes through, the first one included.\<close>

fun sys_trace ::
  "(item \<Rightarrow> js_error + reader_annotation) \<Rightarrow> reader_sys \<Rightarrow> reader_event list \<Rightarrow> reader_sys list"
  where
  "sys_trace toJSON y [] = [y]"
| "sys_trace toJSON y (ev # evs) = y # sys_trace toJSON (sys_step toJSON y ev) evs"

text \<open>How often \<open>isReady\<close> goes from false to true along a list of states.\<close>

fun becomes_ready_count :: "reader_sys list \<Rightarrow> nat" where
  "becomes_ready_count (a # b # ys) =
     (if \<not> isReady (local_state a) \<and> isReady (local_state b) then 1 else 0) +
     becomes_ready_count (b # ys)"
| "becomes_ready_count ys = 0"

text \<open>The event sequences of one mount start from \<open>initial_sys\<close>.\<close>

definition sys_run ::
  "(item \<Rightarrow> js_error + reader_annotation) \<Rightarrow> reader_event list \<Rightarrow> reader_sys" where
  "sys_run toJSON evs = foldl (sys_step toJSON) initial_sys evs"

text \<open>
  What holds of the local state and the operations in flight after any sequence of
  events: a fetch in flight means \<open>FETCHING\<close>; fetched data is not null; the import starts
  only after the fetch; an import in flight means \<open>IMPORTING\<close>; nothing is imported before
  \<open>IMPORTED\<close>; a ready reader has its annotations state \<open>IMPORTED\<close>.
\<close>

definition sys_inv :: "reader_sys \<Rightarrow> bool" where
  "sys_inv y =
     ((fetchInFlight y \<longrightarrow> dataState (local_state y) = FETCHING) \<and>
      (dataState (local_state y) = FETCHED \<longrightarrow> data (local_state y) \<noteq> None) \<and>
      (annotationsState (local_state y) \<noteq> NOT_IMPORTED \<longrightarrow> dataState (local_state y) = FETCHED) \<and>
      (importInFlight y \<longrightarrow> annotationsState (local_state y) = IMPORTING) \<and>
      (annotationsState (local_state y) \<noteq> IMPORTED \<longrightarrow> importedAnnotations (local_state y) = []) \<and>
      (isReady (local_state y) \<longrightarrow> annotationsState (local_state y) = IMPORTED))"

section \<open>Processing annotations and the delta pushed to the viewer\<close>

text \<open>
  reader.jsx, lines 207-227: \<open>getProcessedAnnotations\<close>. The \<open>try\<close> returns the mapped
  list; the \<open>catch\<close> dispatches the typed error to the store, logs, and falls off the end
  of the function, so the call returns \<open>undefined\<close> (\<open>None\<close>). The second component is
  what was dispatched to the store.
\<close>

definition getProcessedAnnotations ::
  "(item \<Rightarrow> js_error + reader_annotation) \<Rightarrow> item list \<Rightarrow>
     reader_annotation list option \<times> store_action list" where
  "getProcessedAnnotations annotationItemToJSON anns =
     (case map_throwing annotationItemToJSON anns of
        Inr processed \<Rightarrow> (Some processed, [])
      | Inl e \<Rightarrow> (None, [ERROR_PROCESSING_ANNOTATIONS ''Failed to process annotations'']))"

text \<open>
  The \<open>deep-equal\<close> package (reader.jsx, line 3). An object keeps its properties in the
  order they were added, and \<open>otherFields\<close> lists them so; \<open>deep-equal\<close> compares two
  objects by their property names and the value under each name, whatever the order.
  \<open>same_properties\<close> is that comparison on two property lists: every name of either list
  has the same value (or is absent) in both.
\<close>

definition same_properties ::
  "(string \<times> string) list \<Rightarrow> (string \<times> string) list \<Rightarrow> bool" where
  "same_properties xs ys =
     list_all (\<lambda>k. map_of xs k = map_of ys k) (map fst xs @ map fst ys)"

definition deepEqual_item :: "item \<Rightarrow> item \<Rightarrow> bool" where
  "deepEqual_item a b =
     (key a = key b \<and> itemType a = itemType b \<and> contentType a = contentType b \<and>
      filename a = filename b \<and> deleted a = deleted b \<and>
      same_properties (otherFields a) (otherFields b))"

text \<open>\<open>deepEqual(a, b)\<close> for an item \<open>a\<close> and the result \<open>b\<close> of \<open>Array.prototype.find\<close>, which
  is an item or \<open>undefined\<close>: an object is not deep-equal to \<open>undefined\<close>.\<close>

fun deepEqual :: "item \<Rightarrow> item option \<Rightarrow> bool" where
  "deepEqual a None = False"
| "deepEqual a (Some b) = deepEqual_item a b"

text \<open>\<open>deepEqual(prevAnnotations, annotations)\<close>: two arrays are deep-equal when they have
  the same length and deep-equal elements at each index; \<open>undefined\<close> is not deep-equal to
  an array.\<close>

fun deepEqual_arrays :: "item list option \<Rightarrow> item list \<Rightarrow> bool" where
  "deepEqual_arrays None anns = False"
| "deepEqual_arrays (Some prev) anns = list_all2 deepEqual_item prev anns"

text \<open>
  reader.jsx, lines 424-426:
  \<^verbatim>\<open>annotations.filter(a => !deepEqual(a, prevAnnotations.find(pa => pa.key === a.key)))\<close>.
  With \<open>prevAnnotations\<close> undefined the callback throws a \<open>TypeError\<close> as soon as it is
  called, that is, unless \<open>annotations\<close> is empty.
\<close>

definition changedAnnotations :: "item list option \<Rightarrow> item list \<Rightarrow> js_error + item list" where
  "changedAnnotations prev anns =
     (case prev of
        None \<Rightarrow> (if anns = [] then Inr [] else Inl ''TypeError'')
      | Some pas \<Rightarrow>
          Inr (filter (\<lambda>a. \<not> deepEqual a (find (\<lambda>pa. key pa = key a) pas)) anns))"


text \<open>Calls on the embedded viewer (\<open>reader.current\<close>).\<close>

datatype viewer_call =
    Freeze
  | Reload buffer "string option"
  | Unfreeze
  | SetAnnotations "reader_annotation list option"

text \<open>
  reader.jsx, lines 419-429: the effect that pushes changed annotations. The result is the
  calls made on the viewer and the actions dispatched to the store, or the error the body
  throws. \<open>viewerCreated\<close> says whether \<open>reader.current\<close> holds a viewer: the ref starts as
  \<open>null\<close> (line 136) and is set by \<open>handleIframeLoaded\<close> (line 278), so it is \<open>null\<close> from
  the render that makes the reader ready until the frame has loaded. In
  \<^verbatim>\<open>reader.current.setAnnotations(getProcessedAnnotations(changedAnnotations))\<close>
  the method is read before the argument is evaluated: on \<open>null\<close> that read throws a
  \<open>TypeError\<close>, and nothing is processed, dispatched or pushed.
\<close>

definition annotations_effect ::
  "(item \<Rightarrow> js_error + reader_annotation) \<Rightarrow> bool \<Rightarrow> reader_props \<Rightarrow> reader_state \<Rightarrow>
     js_error + viewer_call list \<times> store_action list" where
  "annotations_effect toJSON viewerCreated p s =
     (if isReady s \<and>
         (\<not> deepEqual_arrays (prevAnnotations p) (annotations p) \<or>
          (truthy_flag (wasBusy p) \<and> \<not> reader_isBusy p))
      then
        if reader_isBusy p then Inr ([], [])
        else
          (case changedAnnotations (prevAnnotations p) (annotations p) of
             Inl e \<Rightarrow> Inl e
           | Inr changed \<Rightarrow>
               if \<not> viewerCreated then Inl ''TypeError''
               else
                 (case getProcessedAnnotations toJSON changed of
                    (processed, dispatched) \<Rightarrow> Inr ([SetAnnotations processed], dispatched)))
      else Inr ([], []))"

text \<open>
  reader.jsx, lines 271 and 284, in \<open>handleIframeLoaded\<close>: the \<open>annotations\<close> option
  given to \<open>createReader\<close> is
  \<^verbatim>\<open>[...processedAnnotations, ...state.importedAnnotations]\<close>;
  spreading \<open>undefined\<close> throws a \<open>TypeError\<close>.
\<close>

definition handleIframeLoaded_annotations ::
  "(item \<Rightarrow> js_error + reader_annotation) \<Rightarrow> reader_props \<Rightarrow> reader_state \<Rightarrow>
     (js_error + reader_annotation list) \<times> store_action list" where
  "handleIframeLoaded_annotations toJSON p s =
     (case getProcessedAnnotations toJSON (annotations p) of
        (None, dispatched) \<Rightarrow> (Inl ''TypeError'', dispatched)
      | (Some processedAnnotations, dispatched) \<Rightarrow>
          (Inr (processedAnnotations @ importedAnnotations s), dispatched))"

section \<open>The diff worker's client\<close>

text \<open>
  reader.jsx, lines 42-64. Messages are pairs \<open>[command, payload]\<close>. The worker's
  \<open>'READY'\<close> is written \<open>WORKER_READY\<close> here (the reducer's action \<open>READY\<close> has the name
  already); \<open>UNKNOWN\<close> is a message with any other command, which the \<open>switch\<close> ignores.
\<close>

datatype worker_msg =
    WORKER_READY
  | DIFF_COMPLETE payload
  | DIFF_ERROR payload
  | LOG payload
  | UNKNOWN string

datatype client_msg = LOAD buffer buffer | DIFF

text \<open>A promise settles once: \<open>resolve\<close> and \<open>reject\<close> on a settled promise do
  nothing.\<close>

datatype promise = Pending | Resolved payload | Rejected payload

fun resolve :: "promise \<Rightarrow> payload \<Rightarrow> promise" where
  "resolve Pending v = Resolved v"
| "resolve pr v = pr"

fun reject :: "promise \<Rightarrow> payload \<Rightarrow> promise" where
  "reject Pending v = Rejected v"
| "reject pr v = pr"

record diff_client =
  posted :: "client_msg list"
  outcome :: promise
  warned :: "payload list"

text \<open>The executor of the promise up to \<open>addEventListener\<close>: the worker is created and
  \<open>LOAD\<close> is posted with a clone of each file, the old one cloned first.\<close>

definition computeDiffUsingWorker :: "nat \<Rightarrow> buffer \<Rightarrow> buffer \<Rightarrow> diff_client \<times> nat" where
  "computeDiffUsingWorker fresh oldFile newFile =
     (case cloneData fresh oldFile of
        (oldClone, fresh1) \<Rightarrow>
          (case cloneData fresh1 newFile of
             (newClone, fresh2) \<Rightarrow>
               (\<lparr>posted = [LOAD oldClone newClone], outcome = Pending, warned = []\<rparr>, fresh2)))"

text \<open>The \<open>message\<close> listener.\<close>

fun on_message :: "diff_client \<Rightarrow> worker_msg \<Rightarrow> diff_client" where
  "on_message c WORKER_READY = c\<lparr>posted := posted c @ [DIFF]\<rparr>"
| "on_message c (DIFF_COMPLETE v) = c\<lparr>outcome := resolve (outcome c) v\<rparr>"
| "on_message c (DIFF_ERROR v) = c\<lparr>outcome := reject (outcome c) v\<rparr>"
| "on_message c (LOG v) = c\<lparr>warned := warned c @ [v]\<rparr>"
| "on_message c (UNKNOWN t) = c"

text \<open>A whole session: the client after the worker's messages \<open>msgs\<close>, in order.\<close>

definition diff_session ::
  "nat \<Rightarrow> buffer \<Rightarrow> buffer \<Rightarrow> worker_msg list \<Rightarrow> diff_client \<times> nat" where
  "diff_session fresh oldFile newFile msgs =
     (case computeDiffUsingWorker fresh oldFile newFile of
        (c, fresh') \<Rightarrow> (foldl on_message c msgs, fresh'))"

fun is_terminal :: "worker_msg \<Rightarrow> bool" where
  "is_terminal (DIFF_COMPLETE v) = True"
| "is_terminal (DIFF_ERROR v) = True"
| "is_terminal m = False"

fun is_log :: "worker_msg \<Rightarrow> bool" where
  "is_log (LOG v) = True"
| "is_log m = False"

fun settled_by :: "worker_msg option \<Rightarrow> promise" where
  "settled_by (Some (DIFF_COMPLETE v)) = Resolved v"
| "settled_by (Some (DIFF_ERROR v)) = Rejected v"
| "settled_by m = Pending"

section \<open>Page rotation\<close>

text \<open>
  reader.jsx, lines 229-243: \<open>rotatePages\<close>. The result lists, in order, what the call
  does to the outside: calls on the viewer, the request to the PDF worker, local and store
  dispatches and the messages posted to the diff worker. \<open>rotated\<close> is how
  \<open>pdfWorker.rotatePages\<close> settles (the content of the new buffer), \<open>msgs\<close> what the diff
  worker sends. A rejected rotation ends the call before the \<open>try\<close>; a diff promise that
  never settles leaves the call waiting at its \<open>await\<close>.
\<close>

datatype rotate_output =
    ViewerCall viewer_call
  | PdfWorkerRotate buffer "nat list" int bool
  | LocalDispatch reader_action
  | DiffWorkerPost client_msg
  | StoreDispatch store_action

definition rotatePages ::
  "nat \<Rightarrow> item \<Rightarrow> string option \<Rightarrow> buffer \<Rightarrow> nat list \<Rightarrow> int \<Rightarrow>
     js_error + 8 word list \<Rightarrow> worker_msg list \<Rightarrow> rotate_output list" where
  "rotatePages fresh att baseURI oldBuf pageIndexes degrees rotated msgs =
     (case cloneData fresh oldBuf of
        (c1, f1) \<Rightarrow>
          [ViewerCall Freeze, PdfWorkerRotate c1 pageIndexes degrees True] @
          (case rotated of
             Inl e \<Rightarrow> []
           | Inr content \<Rightarrow>
               (let modifiedBuf = \<lparr>ident = f1, bytes = content\<rparr> in
                case cloneData (Suc f1) modifiedBuf of
                  (c2, f2) \<Rightarrow>
                    (case cloneData f2 modifiedBuf of
                       (c3, f3) \<Rightarrow>
                         [ViewerCall (Reload c2 baseURI), ViewerCall Unfreeze,
                          LocalDispatch (ROTATED_PAGES c3)] @
                         (case diff_session f3 oldBuf modifiedBuf msgs of
                            (client, f4) \<Rightarrow>
                              map DiffWorkerPost (posted client) @
                              (case outcome client of
                                 Pending \<Rightarrow> []
                               | Resolved diff \<Rightarrow>
                                   [StoreDispatch (PatchAttachment (key att) modifiedBuf diff)]
                               | Rejected e \<Rightarrow>
                                   (case cloneData f4 modifiedBuf of
                                      (c4, f5) \<Rightarrow>
                                        [StoreDispatch
                                           (UploadAttachment (key att) (filename att) c4)])))))))"

text \<open>The store's view of a run: the actions dispatched to it, in order.\<close>

fun store_dispatches :: "rotate_output list \<Rightarrow> store_action list" where
  "store_dispatches [] = []"
| "store_dispatches (StoreDispatch a # os) = a # store_dispatches os"
| "store_dispatches (x # os) = store_dispatches os"

text \<open>The buffers an action to the store carries.\<close>

fun carried_buffers :: "store_action \<Rightarrow> buffer list" where
  "carried_buffers (PatchAttachment k b d) = [b]"
| "carried_buffers (UploadAttachment k f b) = [b]"
| "carried_buffers a = []"

text \<open>The buffers that reach the store in a run of \<open>rotatePages\<close>.\<close>

definition buffers_sent_to_store :: "rotate_output list \<Rightarrow> buffer list" where
  "buffers_sent_to_store outs = concat (map carried_buffers (store_dispatches outs))"

fun is_patch :: "store_action \<Rightarrow> bool" where
  "is_patch (PatchAttachment k b d) = True"
| "is_patch a = False"

fun is_upload :: "store_action \<Rightarrow> bool" where
  "is_upload (UploadAttachment k f b) = True"
| "is_upload a = False"

section \<open>The export dialog\<close>

text \<open>
  export-modal.jsx. The table \<open>exportFormats\<close> is imported from
  \<open>constants/export-formats\<close>, outside this file set, and is a parameter: a list of
  entries with a key, a label and an extension (\<open>None\<close> when the entry has none). The
  entry's \<open>key\<close> is written \<open>format_key\<close>, the dialog's \<open>isBusy\<close> \<open>modal_isBusy\<close>.
\<close>

record export_format =
  format_key :: string
  label :: string
  extension :: "string option"

record modal_state =
  modal_isBusy :: bool
  format :: string




text \<open>\<open>Array.prototype.join\<close> on strings.\<close>

fun join :: "string \<Rightarrow> string list \<Rightarrow> string" where
  "join sep [] = []"
| "join sep [x] = x"
| "join sep (x # y # ys) = x @ sep @ join sep (y # ys)"

text \<open>export-modal.jsx, lines 40-41:
  \<^verbatim>\<open>['export-data', exportFormats.find(f => f.key === format).extension]
    .filter(Boolean).join('.')\<close>.
  \<open>find\<close> returns \<open>undefined\<close> for a key the table lacks, and reading \<open>.extension\<close> of
  it throws.\<close>

definition export_fileName :: "export_format list \<Rightarrow> string \<Rightarrow> js_error + string" where
  "export_fileName exportFormats fmt =
     (case find (\<lambda>f. format_key f = fmt) exportFormats of
        None \<Rightarrow> Inl ''TypeError''
      | Some f \<Rightarrow>
          Inr (join ''.'' (map the (filter truthy_string [Some ''export-data'', extension f]))))"

text \<open>The calls \<open>handleExport\<close> makes on its props and on \<open>file-saver\<close>.\<close>

datatype modal_call =
    ExportItems "string list" string
  | SaveAs string string
  | ToggleModal bool
  | OnSelectModeToggle bool

text \<open>
  export-modal.jsx, lines 36-49: \<open>handleExport\<close>, in the two parts its \<open>await\<close> separates.
  \<open>handleExport_begin\<close> runs up to the \<open>await\<close> and gives the state the dialog has while
  the export is awaited, the file name and the call made; \<open>handleExport_resume\<close> is the
  rest, run on the state of that moment with the way \<open>exportItems\<close> settled (there is no
  \<open>try\<close>: a rejection ends the handler there). \<open>handleExport\<close> is the whole handler
  when nothing else sets the state during the \<open>await\<close>.
\<close>

definition handleExport_begin ::
  "export_format list \<Rightarrow> string list \<Rightarrow> modal_state \<Rightarrow>
     js_error + modal_state \<times> string \<times> modal_call list" where
  "handleExport_begin exportFormats itemKeys st =
     (case export_fileName exportFormats (format st) of
        Inl e \<Rightarrow> Inl e
      | Inr fileName \<Rightarrow>
          Inr (st\<lparr>modal_isBusy := True\<rparr>, fileName, [ExportItems itemKeys (format st)]))"

definition handleExport_resume ::
  "modal_state \<Rightarrow> string \<Rightarrow> js_error + string \<Rightarrow> modal_state \<times> modal_call list" where
  "handleExport_resume st fileName settled =
     (case settled of
        Inl e \<Rightarrow> (st, [])
      | Inr exportData \<Rightarrow>
          (st\<lparr>modal_isBusy := False\<rparr>,
           [SaveAs exportData fileName, ToggleModal False, OnSelectModeToggle False]))"

definition handleExport ::
  "export_format list \<Rightarrow> string list \<Rightarrow> modal_state \<Rightarrow> js_error + string \<Rightarrow>
     js_error + modal_state \<times> modal_call list" where
  "handleExport exportFormats itemKeys st settled =
     (case handleExport_begin exportFormats itemKeys st of
        Inl e \<Rightarrow> Inl e
      | Inr (busy, fileName, calls) \<Rightarrow>
          (case handleExport_resume busy fileName settled of
             (st', calls') \<Rightarrow> Inr (st', calls @ calls')))"






section \<open>Concrete values used to exercise the theorems\<close>

definition demo_item :: item where
  "demo_item =
     \<lparr>key = ''ATTACH01'', itemType = ''attachment'', contentType = ''text/html'',
      filename = ''page.html'', deleted = False, otherFields = []\<rparr>"

definition demo_pdf :: item where
  "demo_pdf =
     \<lparr>key = ''ATTACH02'', itemType = ''attachment'', contentType = ''application/pdf'',
      filename = ''paper.pdf'', deleted = False, otherFields = []\<rparr>"

definition demo_buffer :: buffer where
  "demo_buffer = \<lparr>ident = 0, bytes = [1, 2, 3]\<rparr>"

definition demo_props :: reader_props where
  "demo_props =
     \<lparr>attachmentKey = Some ''ATTACH01'', attachmentItem = Some demo_item,
      url = Some ''https://files.example/page'', timestamp = 1000, isFetchingUrl = False,
      now = 2000, isFetched = True, isFetchingUserLibrarySettings = None,
      annotations = [], prevAnnotations = Some [], isCreating = False, isUpdating = False,
      wasBusy = Some False\<rparr>"

text \<open>A stand-in for \<open>annotationItemToJSON\<close>: it throws on an annotation whose position is
  not JSON.\<close>

definition demo_toJSON :: "item \<Rightarrow> js_error + reader_annotation" where
  "demo_toJSON a =
     (if map_of (otherFields a) ''annotationPosition'' = Some ''{'' then Inl ''SyntaxError''
      else Inr ((''id'', key a) # otherFields a))"

text \<open>A mount that fetches the HTML attachment and skips the import: after these events
  the data is there and the annotations state is \<open>IMPORTED\<close>.\<close>

definition demo_events :: "reader_event list" where
  "demo_events = [Render demo_props, FetchSettled (Inr demo_buffer), Render demo_props]"

definition demo_note1 :: item where
  "demo_note1 =
     \<lparr>key = ''ANNOT001'', itemType = ''annotation'', contentType = '''', filename = '''',
      deleted = False, otherFields = [(''annotationText'', ''first'')]\<rparr>"

definition demo_note2 :: item where
  "demo_note2 =
     \<lparr>key = ''ANNOT002'', itemType = ''annotation'', contentType = '''', filename = '''',
      deleted = False, otherFields = [(''annotationText'', ''second'')]\<rparr>"

definition demo_note2_edited :: item where
  "demo_note2_edited =
     \<lparr>key = ''ANNOT002'', itemType = ''annotation'', contentType = '''', filename = '''',
      deleted = False, otherFields = [(''annotationText'', ''second, edited'')]\<rparr>"

definition demo_note3 :: item where
  "demo_note3 =
     \<lparr>key = ''ANNOT003'', itemType = ''annotation'', contentType = '''', filename = '''',
      deleted = False, otherFields = [(''annotationText'', ''third'')]\<rparr>"

definition demo_note_broken :: item where
  "demo_note_broken =
     \<lparr>key = ''ANNOT004'', itemType = ''annotation'', contentType = '''', filename = '''',
      deleted = False, otherFields = [(''annotationPosition'', ''{'')]\<rparr>"

text \<open>The first note with its properties in another order.\<close>

definition demo_note1_long :: item where
  "demo_note1_long =
     \<lparr>key = ''ANNOT001'', itemType = ''annotation'', contentType = '''', filename = '''',
      deleted = False,
      otherFields = [(''annotationText'', ''first''), (''annotationColor'', ''#ffd400'')]\<rparr>"

definition demo_note1_reordered :: item where
  "demo_note1_reordered =
     \<lparr>key = ''ANNOT001'', itemType = ''annotation'', contentType = '''', filename = '''',
      deleted = False,
      otherFields = [(''annotationColor'', ''#ffd400''), (''annotationText'', ''first'')]\<rparr>"

text \<open>A ready reader, and a render in which one annotation was edited and one added.\<close>

definition demo_ready :: reader_state where
  "demo_ready =
     \<lparr>action = None, isReady = True, data = Some demo_buffer, dataState = FETCHED,
      annotationsState = IMPORTED, importedAnnotations = [], error = None\<rparr>"

definition demo_changed_props :: reader_props where
  "demo_changed_props =
     demo_props
       \<lparr>annotations := [demo_note1, demo_note2_edited, demo_note3],
        prevAnnotations := Some [demo_note1, demo_note2]\<rparr>"

text \<open>The props of a mount on a PDF attachment.\<close>

definition demo_pdf_props :: reader_props where
  "demo_pdf_props = demo_props\<lparr>attachmentKey := Some ''ATTACH02'', attachmentItem := Some demo_pdf\<rparr>"

definition demo_new_buffer :: buffer where
  "demo_new_buffer = \<lparr>ident = 1, bytes = [1, 2, 4]\<rparr>"


section \<open>Properties of the reducer and of a mount\<close>

lemmas lifecycle_defs =
  UNFETCHED_def NOT_IMPORTED_def FETCHING_def IMPORTING_def FETCHED_def IMPORTED_def

lemmas effect_defs =
  render_actions_def fetch_data_effect_def fetch_data_guard_def import_effect_def
  import_starts_worker_def ready_effect_def rotate_effect_def rotate_guard_def urlIsFresh_def

lemmas demo_defs =
  demo_item_def demo_pdf_def demo_buffer_def demo_props_def demo_toJSON_def demo_events_def

lemma readerReducer_keeps_ready: "isReady s \<Longrightarrow> isReady (readerReducer s a)"
  by (cases a) simp_all

lemma foldl_readerReducer_keeps_ready:
  "isReady s \<Longrightarrow> isReady (foldl readerReducer s as)"
  by (induction as arbitrary: s) (simp_all add: readerReducer_keeps_ready)

lemma sys_step_keeps_ready:
  "isReady (local_state y) \<Longrightarrow> isReady (local_state (sys_step toJSON y ev))"
  by (cases ev) (simp_all add: Let_def readerReducer_keeps_ready foldl_readerReducer_keeps_ready)

lemma readerReducer_sets_ready:
  "\<not> isReady s \<Longrightarrow> isReady (readerReducer s a) \<Longrightarrow> a = READY"
  by (cases a) simp_all

lemma foldl_readerReducer_sets_ready:
  "\<not> isReady s \<Longrightarrow> isReady (foldl readerReducer s as) \<Longrightarrow> READY \<in> set as"
proof (induction as arbitrary: s)
  case Nil
  then show ?case by simp
next
  case (Cons a as)
  show ?case
  proof (cases "isReady (readerReducer s a)")
    case True
    with Cons.prems have "a = READY" by (simp add: readerReducer_sets_ready)
    then show ?thesis by simp
  next
    case False
    with Cons show ?thesis by simp
  qed
qed

lemma READY_in_render_actions:
  "READY \<in> set (render_actions p s) \<Longrightarrow>
     \<not> isReady s \<and> isFetched p \<and> data s \<noteq> None \<and> annotationsState s = IMPORTED \<and>
     \<not> truthy_flag (isFetchingUserLibrarySettings p)"
  by (auto simp: render_actions_def fetch_data_effect_def import_effect_def ready_effect_def
      rotate_effect_def split: if_splits option.splits)

lemma import_settled_not_READY: "import_settled toJSON r \<noteq> READY"
  by (simp add: import_settled_def split: sum.splits)

lemma fetch_data_settled_not_READY: "fetch_data_settled r \<noteq> READY"
  by (cases r) simp_all

lemma sys_step_sets_ready:
  assumes "\<not> isReady (local_state y)" and "isReady (local_state (sys_step toJSON y ev))"
  shows "\<exists>p. ev = Render p \<and> isFetched p \<and> data (local_state y) \<noteq> None \<and>
           annotationsState (local_state y) = IMPORTED \<and>
           \<not> truthy_flag (isFetchingUserLibrarySettings p)"
proof (cases ev)
  case (Render p)
  with assms have "READY \<in> set (render_actions p (local_state y))"
    by (simp add: Let_def foldl_readerReducer_sets_ready)
  then show ?thesis using Render by (simp add: READY_in_render_actions)
next
  case (FetchSettled r)
  with assms show ?thesis
    by (auto split: if_splits dest: readerReducer_sets_ready simp: fetch_data_settled_not_READY)
next
  case (ImportSettled r)
  with assms show ?thesis
    by (auto split: if_splits dest: readerReducer_sets_ready simp: import_settled_not_READY)
next
  case (ViewerRotatePages pageIndexes degrees)
  with assms show ?thesis by (auto split: if_splits)
next
  case (RotateSettled d)
  with assms show ?thesis by (auto split: if_splits)
qed

lemma becomes_ready_count_ready:
  "isReady (local_state y) \<Longrightarrow> becomes_ready_count (sys_trace toJSON y evs) = 0"
proof (induction evs arbitrary: y)
  case Nil
  then show ?case by simp
next
  case (Cons ev evs)
  have "isReady (local_state (sys_step toJSON y ev))"
    using Cons.prems by (rule sys_step_keeps_ready)
  from Cons.IH [OF this] Cons.prems show ?case
    by (cases evs) simp_all
qed

lemma becomes_ready_count_le_1: "becomes_ready_count (sys_trace toJSON y evs) \<le> 1"
proof (induction evs arbitrary: y)
  case Nil
  then show ?case by simp
next
  case (Cons ev evs)
  show ?case
  proof (cases "isReady (local_state (sys_step toJSON y ev))")
    case True
    then have "becomes_ready_count (sys_trace toJSON (sys_step toJSON y ev) evs) = 0"
      by (rule becomes_ready_count_ready)
    then show ?thesis by (cases evs) simp_all
  next
    case False
    with Cons.IH [of "sys_step toJSON y ev"] show ?thesis by (cases evs) simp_all
  qed
qed

lemma demo_run:
  "sys_run toJSON demo_events =
     \<lparr>local_state =
        \<lparr>action = None, isReady = False, data = Some demo_buffer, dataState = FETCHED,
         annotationsState = IMPORTED, importedAnnotations = [], error = None\<rparr>,
      fetchInFlight = False, importInFlight = False, rotationsInFlight = 0\<rparr>"
  by (simp add: sys_run_def demo_events_def demo_props_def demo_item_def initial_sys_def
      initial_state_def effect_defs lifecycle_defs Let_def)

text \<open>
  Claim C1. No action makes the reducer turn \<open>isReady\<close> from true to false; along any
  sequence of events of a mount \<open>isReady\<close> goes from false to true at most once; and a
  step that makes it true is a render whose props and state satisfy the guard of the READY effect: the child
  items are fetched, the data is not null, the annotations state is \<open>IMPORTED\<close> and the
  settings of the user library are not being fetched.
\<close>

theorem isReady_set_once_under_gate:
  "(isReady s \<longrightarrow> isReady (readerReducer s a)) \<and>
   becomes_ready_count (sys_trace toJSON initial_sys evs) \<le> 1 \<and>
   (\<not> isReady (local_state y) \<and> isReady (local_state (sys_step toJSON y ev)) \<longrightarrow>
      (\<exists>p. ev = Render p \<and> isFetched p \<and> data (local_state y) \<noteq> None \<and>
           annotationsState (local_state y) = IMPORTED \<and>
           \<not> truthy_flag (isFetchingUserLibrarySettings p)))"
  using readerReducer_keeps_ready becomes_ready_count_le_1 sys_step_sets_ready by blast

theorem isReady_set_once_under_gate_witness:
  "\<not> isReady (local_state (sys_run demo_toJSON demo_events)) \<and>
   isReady (local_state (sys_step demo_toJSON (sys_run demo_toJSON demo_events) (Render demo_props))) \<and>
   isReady (readerReducer
     (local_state (sys_step demo_toJSON (sys_run demo_toJSON demo_events) (Render demo_props)))
     (ERROR_FETCH_DATA ''late'')) \<and>
   (\<exists>p. Render demo_props = Render p \<and> isFetched p \<and>
        data (local_state (sys_run demo_toJSON demo_events)) \<noteq> None \<and>
        annotationsState (local_state (sys_run demo_toJSON demo_events)) = IMPORTED \<and>
        \<not> truthy_flag (isFetchingUserLibrarySettings p))"
proof -
  let ?y = "sys_run demo_toJSON demo_events"
  let ?y' = "sys_step demo_toJSON ?y (Render demo_props)"
  have before: "\<not> isReady (local_state ?y)"
    by (simp add: demo_run)
  have after: "isReady (local_state ?y')"
    by (simp add: demo_run demo_props_def demo_item_def effect_defs lifecycle_defs Let_def)
  from isReady_set_once_under_gate
    [of "local_state ?y'" "ERROR_FETCH_DATA ''late''" demo_toJSON "[]" ?y "Render demo_props"]
    before after
  show ?thesis by blast
qed

section \<open>Properties of annotation processing and of the pushed delta\<close>

lemmas demo_note_defs =
  demo_note1_def demo_note2_def demo_note2_edited_def demo_note3_def demo_ready_def
  demo_changed_props_def


text \<open>\<open>same_properties\<close> is equality of the two lists read as maps from names to values,
  so \<open>deepEqual_item\<close> is an equivalence and holds of equal items.\<close>

lemma same_properties_map_of: "same_properties xs ys = (map_of xs = map_of ys)"
proof
  assume same: "same_properties xs ys"
  show "map_of xs = map_of ys"
  proof
    fix k
    show "map_of xs k = map_of ys k"
    proof (cases "k \<in> set (map fst xs @ map fst ys)")
      case True
      with same show ?thesis by (simp add: same_properties_def list_all_iff)
    next
      case False
      then have "map_of xs k = None" and "map_of ys k = None"
        by (simp_all add: map_of_eq_None_iff)
      then show ?thesis by simp
    qed
  qed
next
  assume "map_of xs = map_of ys"
  then show "same_properties xs ys" by (simp add: same_properties_def list_all_iff)
qed

lemma deepEqual_item_refl: "deepEqual_item a a"
  by (simp add: deepEqual_item_def same_properties_map_of)



lemma map_throwing_Inl:
  "a \<in> set xs \<Longrightarrow> f a = Inl e \<Longrightarrow> \<exists>e'. map_throwing f xs = Inl e'"
  by (induction xs) (auto split: sum.splits)


text \<open>Before the viewer is created the effect throws where it would push: nothing is
  processed and nothing reaches the store.\<close>

lemma annotations_effect_without_viewer:
  assumes "isReady s" and "\<not> reader_isBusy p"
    and "\<not> deepEqual_arrays (prevAnnotations p) (annotations p) \<or> truthy_flag (wasBusy p)"
    and "changedAnnotations (prevAnnotations p) (annotations p) = Inr changed"
  shows "annotations_effect toJSON False p s = Inl ''TypeError''"
  using assms by (auto simp: annotations_effect_def)

text \<open>A change of the order of an item's properties alone is no change for the effect.\<close>

lemma reordered_properties_are_deep_equal:
  "deepEqual_item demo_note1_long demo_note1_reordered \<and>
   demo_note1_long \<noteq> demo_note1_reordered \<and>
   changedAnnotations (Some [demo_note1_long]) [demo_note1_reordered] = Inr []"
  by (simp add: deepEqual_item_def same_properties_def changedAnnotations_def
      demo_note1_long_def demo_note1_reordered_def)




text \<open>
  Claim C10. When \<open>annotationItemToJSON\<close> throws for one of the annotations,
  \<open>getProcessedAnnotations\<close> dispatches \<open>ERROR_PROCESSING_ANNOTATIONS\<close> with the message
  "Failed to process annotations" and returns \<open>undefined\<close>, not a list. The effect that
  pushes the delta, which calls it once the viewer is created, then calls
  \<open>setAnnotations(undefined)\<close>; and the spread in \<open>handleIframeLoaded\<close> is applied to
  \<open>undefined\<close>, which throws.
\<close>

theorem processing_failure_returns_undefined:
  "(a \<in> set anns \<and> toJSON a = Inl e \<longrightarrow>
      getProcessedAnnotations toJSON anns =
        (None, [ERROR_PROCESSING_ANNOTATIONS ''Failed to process annotations'']) \<and>
      fst (getProcessedAnnotations toJSON anns) \<noteq> Some []) \<and>
   (isReady s \<and> \<not> reader_isBusy p \<and>
    (\<not> deepEqual_arrays (prevAnnotations p) (annotations p) \<or> truthy_flag (wasBusy p)) \<and>
    changedAnnotations (prevAnnotations p) (annotations p) = Inr changed \<and>
    a \<in> set changed \<and> toJSON a = Inl e \<longrightarrow>
      annotations_effect toJSON True p s =
        Inr ([SetAnnotations None],
             [ERROR_PROCESSING_ANNOTATIONS ''Failed to process annotations''])) \<and>
   (a \<in> set (annotations p) \<and> toJSON a = Inl e \<longrightarrow>
      handleIframeLoaded_annotations toJSON p s =
        (Inl ''TypeError'', [ERROR_PROCESSING_ANNOTATIONS ''Failed to process annotations'']))"
proof -
  have failing: "getProcessedAnnotations toJSON xs =
      (None, [ERROR_PROCESSING_ANNOTATIONS ''Failed to process annotations''])"
    if "a \<in> set xs" and "toJSON a = Inl e" for xs
    using map_throwing_Inl [of a xs toJSON e] that by (auto simp: getProcessedAnnotations_def)
  have 1: "a \<in> set anns \<and> toJSON a = Inl e \<longrightarrow>
      getProcessedAnnotations toJSON anns =
        (None, [ERROR_PROCESSING_ANNOTATIONS ''Failed to process annotations'']) \<and>
      fst (getProcessedAnnotations toJSON anns) \<noteq> Some []"
    using failing [of anns] by simp
  have 2: "isReady s \<and> \<not> reader_isBusy p \<and>
    (\<not> deepEqual_arrays (prevAnnotations p) (annotations p) \<or> truthy_flag (wasBusy p)) \<and>
    changedAnnotations (prevAnnotations p) (annotations p) = Inr changed \<and>
    a \<in> set changed \<and> toJSON a = Inl e \<longrightarrow>
      annotations_effect toJSON True p s =
        Inr ([SetAnnotations None],
             [ERROR_PROCESSING_ANNOTATIONS ''Failed to process annotations''])"
    using failing [of changed] by (auto simp: annotations_effect_def)
  have 3: "a \<in> set (annotations p) \<and> toJSON a = Inl e \<longrightarrow>
      handleIframeLoaded_annotations toJSON p s =
        (Inl ''TypeError'', [ERROR_PROCESSING_ANNOTATIONS ''Failed to process annotations''])"
    using failing [of "annotations p"] by (auto simp: handleIframeLoaded_annotations_def)
  from 1 2 3 show ?thesis by blast
qed

theorem processing_failure_returns_undefined_witness:
  "demo_note_broken \<in> set [demo_note1, demo_note_broken] \<and>
   demo_toJSON demo_note_broken = Inl ''SyntaxError'' \<and>
   getProcessedAnnotations demo_toJSON [demo_note1, demo_note_broken] =
     (None, [ERROR_PROCESSING_ANNOTATIONS ''Failed to process annotations'']) \<and>
   annotations_effect demo_toJSON True
       (demo_props\<lparr>annotations := [demo_note1, demo_note_broken],
                   prevAnnotations := Some [demo_note1]\<rparr>)
       demo_ready =
     Inr ([SetAnnotations None],
          [ERROR_PROCESSING_ANNOTATIONS ''Failed to process annotations'']) \<and>
   handleIframeLoaded_annotations demo_toJSON
       (demo_props\<lparr>annotations := [demo_note1, demo_note_broken],
                   prevAnnotations := Some [demo_note1]\<rparr>)
       demo_ready =
     (Inl ''TypeError'', [ERROR_PROCESSING_ANNOTATIONS ''Failed to process annotations''])"
proof -
  let ?p = "demo_props\<lparr>annotations := [demo_note1, demo_note_broken],
                         prevAnnotations := Some [demo_note1]\<rparr>"
  have bad: "demo_note_broken \<in> set [demo_note1, demo_note_broken] \<and>
      demo_toJSON demo_note_broken = Inl ''SyntaxError''"
    by (simp add: demo_toJSON_def demo_note_broken_def)
  have run: "isReady demo_ready \<and> \<not> reader_isBusy ?p \<and>
      (\<not> deepEqual_arrays (prevAnnotations ?p) (annotations ?p) \<or> truthy_flag (wasBusy ?p)) \<and>
      changedAnnotations (prevAnnotations ?p) (annotations ?p) = Inr [demo_note_broken] \<and>
      demo_note_broken \<in> set [demo_note_broken] \<and>
      annotations ?p = [demo_note1, demo_note_broken]"
    by (simp add: demo_note_defs demo_props_def demo_note_broken_def reader_isBusy_def
        deepEqual_item_def same_properties_def changedAnnotations_def)
  from processing_failure_returns_undefined
    [of demo_note_broken "[demo_note1, demo_note_broken]" demo_toJSON "''SyntaxError''"
        demo_ready ?p "[demo_note_broken]"] bad run
  show ?thesis by simp
qed

section \<open>Invariants of a mount; fetching and importing\<close>

lemma sys_inv_initial: "sys_inv initial_sys"
  by (simp add: sys_inv_def initial_sys_def initial_state_def lifecycle_defs)

lemma render_dataState:
  "dataState (foldl readerReducer s (render_actions p s)) =
     (if fetch_data_guard p s then FETCHING else dataState s)"
  by (simp add: render_actions_def fetch_data_effect_def import_effect_def ready_effect_def
      rotate_effect_def split: option.splits)

lemma render_data: "data (foldl readerReducer s (render_actions p s)) = data s"
  by (simp add: render_actions_def fetch_data_effect_def import_effect_def ready_effect_def
      rotate_effect_def split: option.splits)

lemma render_error: "error (foldl readerReducer s (render_actions p s)) = error s"
  by (simp add: render_actions_def fetch_data_effect_def import_effect_def ready_effect_def
      rotate_effect_def split: option.splits)

lemma render_importedAnnotations:
  "importedAnnotations (foldl readerReducer s (render_actions p s)) = importedAnnotations s"
  by (simp add: render_actions_def fetch_data_effect_def import_effect_def ready_effect_def
      rotate_effect_def split: option.splits)

lemma render_annotationsState:
  "annotationsState (foldl readerReducer s (render_actions p s)) =
     (if import_guard p s
      then (if import_starts_worker p s then IMPORTING else IMPORTED)
      else annotationsState s)"
  by (simp add: render_actions_def fetch_data_effect_def import_effect_def ready_effect_def
      rotate_effect_def import_guard_def import_starts_worker_def split: option.splits)

lemma render_isReady:
  "isReady (foldl readerReducer s (render_actions p s)) =
     (isReady s \<or> ready_effect p s = [READY])"
  by (simp add: render_actions_def fetch_data_effect_def import_effect_def ready_effect_def
      rotate_effect_def split: option.splits)

lemma sys_inv_render:
  assumes "sys_inv y"
  shows "sys_inv (sys_step toJSON y (Render p))"
proof -
  let ?s = "local_state y"
  from assms have a:
    "fetchInFlight y \<longrightarrow> dataState ?s = FETCHING"
    "dataState ?s = FETCHED \<longrightarrow> data ?s \<noteq> None"
    "annotationsState ?s \<noteq> NOT_IMPORTED \<longrightarrow> dataState ?s = FETCHED"
    "importInFlight y \<longrightarrow> annotationsState ?s = IMPORTING"
    "annotationsState ?s \<noteq> IMPORTED \<longrightarrow> importedAnnotations ?s = []"
    "isReady ?s \<longrightarrow> annotationsState ?s = IMPORTED"
    by (simp_all add: sys_inv_def)
  have g1: "fetch_data_guard p ?s \<longrightarrow> dataState ?s = UNFETCHED"
    by (simp add: fetch_data_guard_def)
  have g2: "import_guard p ?s \<longrightarrow> dataState ?s = FETCHED \<and> annotationsState ?s = NOT_IMPORTED"
    by (simp add: import_guard_def)
  have g3: "import_starts_worker p ?s \<longrightarrow> import_guard p ?s"
    by (simp add: import_guard_def import_starts_worker_def split: option.splits)
  have g4: "ready_effect p ?s = [READY] \<longrightarrow> annotationsState ?s = IMPORTED"
    by (simp add: ready_effect_def)
  have 1: "fetchInFlight y \<or> fetch_data_guard p ?s \<longrightarrow>
      (if fetch_data_guard p ?s then FETCHING else dataState ?s) = FETCHING"
    using a(1) by simp
  have 2: "(if fetch_data_guard p ?s then FETCHING else dataState ?s) = FETCHED \<longrightarrow> data ?s \<noteq> None"
    using a(2) by (simp add: lifecycle_defs)
  have 3: "(if import_guard p ?s then (if import_starts_worker p ?s then IMPORTING else IMPORTED)
            else annotationsState ?s) \<noteq> NOT_IMPORTED \<longrightarrow>
           (if fetch_data_guard p ?s then FETCHING else dataState ?s) = FETCHED"
    using a(3) g1 g2 by (auto simp: lifecycle_defs)
  have 4: "importInFlight y \<or> import_starts_worker p ?s \<longrightarrow>
      (if import_guard p ?s then (if import_starts_worker p ?s then IMPORTING else IMPORTED)
       else annotationsState ?s) = IMPORTING"
    using a(4) g2 g3 by (auto simp: lifecycle_defs)
  have 5: "(if import_guard p ?s then (if import_starts_worker p ?s then IMPORTING else IMPORTED)
            else annotationsState ?s) \<noteq> IMPORTED \<longrightarrow> importedAnnotations ?s = []"
    using a(5) g2 by (auto simp: lifecycle_defs)
  have 6: "isReady ?s \<or> ready_effect p ?s = [READY] \<longrightarrow>
      (if import_guard p ?s then (if import_starts_worker p ?s then IMPORTING else IMPORTED)
       else annotationsState ?s) = IMPORTED"
    using a(6) g2 g4 by (auto simp: lifecycle_defs)
  show ?thesis
    unfolding sys_inv_def
    using 1 2 3 4 5 6
    by (simp add: Let_def render_dataState render_data render_annotationsState
        render_importedAnnotations render_isReady)
qed

lemma sys_inv_fetch: "sys_inv y \<Longrightarrow> sys_inv (sys_step toJSON y (FetchSettled r))"
  by (cases r) (auto simp: sys_inv_def lifecycle_defs)

lemma sys_inv_import: "sys_inv y \<Longrightarrow> sys_inv (sys_step toJSON y (ImportSettled r))"
  by (auto simp: sys_inv_def lifecycle_defs import_settled_def split: sum.splits)

lemma sys_inv_step: "sys_inv y \<Longrightarrow> sys_inv (sys_step toJSON y ev)"
proof (cases ev)
  case (Render p)
  assume "sys_inv y"
  then show ?thesis unfolding Render by (rule sys_inv_render)
next
  case (FetchSettled r)
  assume "sys_inv y"
  then show ?thesis unfolding FetchSettled by (rule sys_inv_fetch)
next
  case (ImportSettled r)
  assume "sys_inv y"
  then show ?thesis unfolding ImportSettled by (rule sys_inv_import)
next
  case (ViewerRotatePages pageIndexes degrees)
  assume "sys_inv y"
  then show ?thesis unfolding ViewerRotatePages by (auto simp: sys_inv_def)
next
  case (RotateSettled d)
  assume "sys_inv y"
  then show ?thesis unfolding RotateSettled by (auto simp: sys_inv_def)
qed

lemma sys_run_snoc: "sys_run toJSON (evs @ [ev]) = sys_step toJSON (sys_run toJSON evs) ev"
  by (simp add: sys_run_def)

lemma sys_inv_run: "sys_inv (sys_run toJSON evs)"
proof (induction evs rule: rev_induct)
  case Nil
  show ?case by (simp add: sys_run_def sys_inv_initial)
next
  case (snoc ev evs)
  then show ?case by (simp add: sys_run_snoc sys_inv_step)
qed

text \<open>
  Claim C4. For a URL (a non-empty string) fetched at \<open>timestamp\<close>, \<open>urlIsFresh\<close> holds
  exactly at the times before \<open>timestamp + 60000\<close>: it holds at \<open>timestamp + 59999\<close> and
  fails at \<open>timestamp + 60001\<close>. When it fails and no URL fetch is in flight the effect
  dispatches \<open>tryGetAttachmentURL(attachmentKey)\<close>; otherwise it dispatches nothing.
\<close>

theorem url_fresh_under_60000_ms:
  assumes "url p = Some u" and "u \<noteq> []"
  shows "(urlIsFresh p \<longleftrightarrow> now p < timestamp p + 60000) \<and>
    (now p = timestamp p + 59999 \<longrightarrow> urlIsFresh p) \<and>
    (now p = timestamp p + 60001 \<longrightarrow> \<not> urlIsFresh p) \<and>
    (\<not> urlIsFresh p \<and> \<not> isFetchingUrl p \<longrightarrow>
       fetch_url_effect p = [TryGetAttachmentURL (attachmentKey p)]) \<and>
    (urlIsFresh p \<or> isFetchingUrl p \<longrightarrow> fetch_url_effect p = [])"
  using assms by (auto simp: urlIsFresh_def fetch_url_effect_def)

lemma fetched_stays:
  assumes "dataState (local_state (sys_run toJSON evs)) = FETCHED"
  shows "dataState (local_state (sys_step toJSON (sys_run toJSON evs) ev)) = FETCHED"
proof -
  let ?y = "sys_run toJSON evs"
  have "sys_inv ?y" by (rule sys_inv_run)
  with assms have idle: "\<not> fetchInFlight ?y"
    by (auto simp: sys_inv_def lifecycle_defs)
  have guard: "\<not> fetch_data_guard p (local_state ?y)" for p
    using assms by (simp add: fetch_data_guard_def lifecycle_defs)
  show ?thesis
  proof (cases ev)
    case (Render p)
    then show ?thesis using assms guard [of p] by (simp add: Let_def render_dataState)
  next
    case (FetchSettled r)
    then show ?thesis using assms idle by simp
  next
    case (ImportSettled r)
    then show ?thesis using assms by (simp add: import_settled_def split: sum.splits)
  next
    case (ViewerRotatePages pageIndexes degrees)
    then show ?thesis using assms by simp
  next
    case (RotateSettled d)
    then show ?thesis using assms by simp
  qed
qed

text \<open>
  Claim C8. The effect starts the fetch of the data only when \<open>dataState\<close> is \<open>UNFETCHED\<close>
  (and the URL is fresh): in \<open>FETCHING\<close> or \<open>FETCHED\<close> it dispatches nothing, and after any
  sequence of events a fetch in flight means \<open>FETCHING\<close>, so no render starts a second
  one. A failed fetch puts \<open>dataState\<close> back to \<open>UNFETCHED\<close> and records the error; from
  there the guard holds again exactly when the URL is fresh. Once \<open>FETCHED\<close>, the data
  state of the mount stays \<open>FETCHED\<close>.
\<close>

theorem data_fetch_only_when_unfetched:
  "(fetch_data_effect p s \<noteq> [] \<longrightarrow> dataState s = UNFETCHED \<and> urlIsFresh p) \<and>
   (dataState s = FETCHING \<or> dataState s = FETCHED \<longrightarrow>
      fetch_data_effect p s = [] \<and> \<not> fetch_data_guard p s) \<and>
   (fetchInFlight (sys_run toJSON evs) \<longrightarrow>
      dataState (local_state (sys_run toJSON evs)) = FETCHING \<and>
      \<not> fetch_data_guard p (local_state (sys_run toJSON evs))) \<and>
   (dataState (readerReducer s (fetch_data_settled (Inl e))) = UNFETCHED \<and>
    error (readerReducer s (fetch_data_settled (Inl e))) = Some e \<and>
    (fetch_data_guard p (readerReducer s (fetch_data_settled (Inl e))) \<longleftrightarrow> urlIsFresh p)) \<and>
   (fetchInFlight y \<longrightarrow>
      local_state (sys_step toJSON y (FetchSettled (Inl e))) =
        (local_state y)\<lparr>dataState := UNFETCHED, error := Some e\<rparr> \<and>
      \<not> fetchInFlight (sys_step toJSON y (FetchSettled (Inl e)))) \<and>
   (dataState (local_state (sys_run toJSON evs)) = FETCHED \<longrightarrow>
      dataState (local_state (sys_step toJSON (sys_run toJSON evs) ev)) = FETCHED)"
proof -
  have inflight: "fetchInFlight (sys_run toJSON evs) \<longrightarrow>
      dataState (local_state (sys_run toJSON evs)) = FETCHING"
    using sys_inv_run [of toJSON evs] by (simp add: sys_inv_def)
  have 1: "fetch_data_effect p s \<noteq> [] \<longrightarrow> dataState s = UNFETCHED \<and> urlIsFresh p"
    by (simp add: fetch_data_effect_def fetch_data_guard_def)
  have 2: "dataState s = FETCHING \<or> dataState s = FETCHED \<longrightarrow>
      fetch_data_effect p s = [] \<and> \<not> fetch_data_guard p s"
    by (auto simp: fetch_data_effect_def fetch_data_guard_def lifecycle_defs)
  have 3: "fetchInFlight (sys_run toJSON evs) \<longrightarrow>
      dataState (local_state (sys_run toJSON evs)) = FETCHING \<and>
      \<not> fetch_data_guard p (local_state (sys_run toJSON evs))"
    using inflight by (auto simp: fetch_data_guard_def lifecycle_defs)
  have 4: "dataState (readerReducer s (fetch_data_settled (Inl e))) = UNFETCHED \<and>
    error (readerReducer s (fetch_data_settled (Inl e))) = Some e \<and>
    (fetch_data_guard p (readerReducer s (fetch_data_settled (Inl e))) \<longleftrightarrow> urlIsFresh p)"
    by (simp add: fetch_data_guard_def urlIsFresh_def)
  have 5: "fetchInFlight y \<longrightarrow>
      local_state (sys_step toJSON y (FetchSettled (Inl e))) =
        (local_state y)\<lparr>dataState := UNFETCHED, error := Some e\<rparr> \<and>
      \<not> fetchInFlight (sys_step toJSON y (FetchSettled (Inl e)))"
    by simp
  have 6: "dataState (local_state (sys_run toJSON evs)) = FETCHED \<longrightarrow>
      dataState (local_state (sys_step toJSON (sys_run toJSON evs) ev)) = FETCHED"
    using fetched_stays by blast
  from 1 2 3 4 5 6 show ?thesis by blast
qed

text \<open>
  Claim C6. In a mount whose data are \<open>FETCHED\<close> and whose annotations are
  \<open>NOT_IMPORTED\<close>, a render with an attachment whose content type is not
  \<open>application/pdf\<close> dispatches \<open>BEGIN_IMPORT_ANNOTATIONS\<close> and at once
  \<open>SKIP_IMPORT_ANNOTATIONS\<close> without calling the PDF worker: afterwards the annotations
  state is \<open>IMPORTED\<close>, \<open>importedAnnotations\<close> is empty, the recorded error is what it was
  and no import is in flight.
\<close>

theorem non_pdf_import_is_skipped:
  assumes "attachmentItem p = Some att" and "contentType att \<noteq> ''application/pdf''"
    and "dataState (local_state (sys_run toJSON evs)) = FETCHED"
    and "annotationsState (local_state (sys_run toJSON evs)) = NOT_IMPORTED"
  shows "import_effect p (local_state (sys_run toJSON evs)) =
           [BEGIN_IMPORT_ANNOTATIONS, SKIP_IMPORT_ANNOTATIONS] \<and>
         \<not> import_starts_worker p (local_state (sys_run toJSON evs)) \<and>
         annotationsState (local_state (sys_step toJSON (sys_run toJSON evs) (Render p))) = IMPORTED \<and>
         importedAnnotations (local_state (sys_step toJSON (sys_run toJSON evs) (Render p))) = [] \<and>
         error (local_state (sys_step toJSON (sys_run toJSON evs) (Render p))) =
           error (local_state (sys_run toJSON evs)) \<and>
         \<not> importInFlight (sys_step toJSON (sys_run toJSON evs) (Render p))"
proof -
  let ?y = "sys_run toJSON evs"
  have inv: "sys_inv ?y" by (rule sys_inv_run)
  with assms(4) have empty: "importedAnnotations (local_state ?y) = []"
    and idle: "\<not> importInFlight ?y"
    by (auto simp: sys_inv_def lifecycle_defs)
  have eff: "import_effect p (local_state ?y) = [BEGIN_IMPORT_ANNOTATIONS, SKIP_IMPORT_ANNOTATIONS]"
    using assms by (simp add: import_effect_def)
  have guard: "import_guard p (local_state ?y)"
    using assms by (simp add: import_guard_def)
  have noworker: "\<not> import_starts_worker p (local_state ?y)"
    using assms by (simp add: import_starts_worker_def)
  from eff guard noworker empty idle show ?thesis
    by (simp add: Let_def render_annotationsState render_importedAnnotations render_error)
qed

text \<open>
  Claim C7. When the import in flight fails (the worker's promise rejects with \<open>e\<close>, or
  \<open>annotationItemToJSON\<close> throws \<open>e\<close> on an extracted annotation), the annotations state
  becomes \<open>IMPORTED\<close> with \<open>e\<close> recorded and \<open>importedAnnotations\<close> still empty; the reader
  is not ready yet, and the next render with the child items fetched and the settings not
  being fetched dispatches \<open>READY\<close> and makes it ready.
\<close>

theorem import_failure_still_ready:
  assumes "importInFlight (sys_run toJSON evs)"
    and "r = Inl e \<or> (\<exists>ias. r = Inr ias \<and> map_throwing toJSON ias = Inl e)"
    and "y' = sys_step toJSON (sys_run toJSON evs) (ImportSettled r)"
  shows "annotationsState (local_state y') = IMPORTED \<and>
         error (local_state y') = Some e \<and>
         importedAnnotations (local_state y') = [] \<and>
         \<not> isReady (local_state y') \<and>
         (isFetched p \<and> \<not> truthy_flag (isFetchingUserLibrarySettings p) \<longrightarrow>
            ready_effect p (local_state y') = [READY] \<and>
            isReady (local_state (sys_step toJSON y' (Render p))))"
proof -
  let ?y = "sys_run toJSON evs"
  have inv: "sys_inv ?y" by (rule sys_inv_run)
  have act: "import_settled toJSON r = ERROR_IMPORT_ANNOTATIONS e"
    using assms(2) by (auto simp: import_settled_def)
  have y': "local_state y' = (local_state ?y)\<lparr>annotationsState := IMPORTED, error := Some e\<rparr>"
    using assms(1,3) act by simp
  from inv assms(1) have st: "annotationsState (local_state ?y) = IMPORTING"
    "importedAnnotations (local_state ?y) = []" "\<not> isReady (local_state ?y)"
    "data (local_state ?y) \<noteq> None"
    by (auto simp: sys_inv_def lifecycle_defs)
  have gate: "isFetched p \<and> \<not> truthy_flag (isFetchingUserLibrarySettings p) \<longrightarrow>
      ready_effect p (local_state y') = [READY]"
    using y' st by (simp add: ready_effect_def)
  from y' st gate show ?thesis
    by (simp add: Let_def render_isReady)
qed

lemma demo_fetched_run:
  "sys_run toJSON [Render demo_props, FetchSettled (Inr demo_buffer)] =
     \<lparr>local_state =
        \<lparr>action = None, isReady = False, data = Some demo_buffer, dataState = FETCHED,
         annotationsState = NOT_IMPORTED, importedAnnotations = [], error = None\<rparr>,
      fetchInFlight = False, importInFlight = False, rotationsInFlight = 0\<rparr>"
  by (simp add: sys_run_def demo_props_def demo_item_def initial_sys_def
      initial_state_def effect_defs lifecycle_defs Let_def)

lemma demo_fetching_run:
  "sys_run toJSON [Render demo_props] =
     \<lparr>local_state =
        \<lparr>action = None, isReady = False, data = None, dataState = FETCHING,
         annotationsState = NOT_IMPORTED, importedAnnotations = [], error = None\<rparr>,
      fetchInFlight = True, importInFlight = False, rotationsInFlight = 0\<rparr>"
  by (simp add: sys_run_def demo_props_def demo_item_def initial_sys_def
      initial_state_def effect_defs lifecycle_defs Let_def)

lemma demo_importing_run:
  "sys_run toJSON [Render demo_pdf_props, FetchSettled (Inr demo_buffer), Render demo_pdf_props] =
     \<lparr>local_state =
        \<lparr>action = None, isReady = False, data = Some demo_buffer, dataState = FETCHED,
         annotationsState = IMPORTING, importedAnnotations = [], error = None\<rparr>,
      fetchInFlight = False, importInFlight = True, rotationsInFlight = 0\<rparr>"
  by (simp add: sys_run_def demo_pdf_props_def demo_props_def demo_pdf_def initial_sys_def
      initial_state_def effect_defs lifecycle_defs Let_def)

theorem url_fresh_under_60000_ms_witness:
  "url (demo_props\<lparr>now := 60999\<rparr>) = Some ''https://files.example/page'' \<and>
   ''https://files.example/page'' \<noteq> [] \<and>
   urlIsFresh (demo_props\<lparr>now := 60999\<rparr>) \<and>
   \<not> urlIsFresh (demo_props\<lparr>now := 61000\<rparr>) \<and>
   \<not> urlIsFresh (demo_props\<lparr>now := 61001\<rparr>) \<and>
   fetch_url_effect (demo_props\<lparr>now := 61001\<rparr>) = [TryGetAttachmentURL (Some ''ATTACH01'')] \<and>
   fetch_url_effect (demo_props\<lparr>now := 60999\<rparr>) = []"
proof -
  have u: "url (demo_props\<lparr>now := n\<rparr>) = Some ''https://files.example/page''" for n
    by (simp add: demo_props_def)
  have ne: "''https://files.example/page'' \<noteq> []" by simp
  have vals: "now (demo_props\<lparr>now := n\<rparr>) = n \<and> timestamp (demo_props\<lparr>now := n\<rparr>) = 1000 \<and>
      \<not> isFetchingUrl (demo_props\<lparr>now := n\<rparr>) \<and>
      attachmentKey (demo_props\<lparr>now := n\<rparr>) = Some ''ATTACH01''" for n
    by (simp add: demo_props_def)
  from url_fresh_under_60000_ms [OF u ne, of 60999]
    url_fresh_under_60000_ms [OF u ne, of 61000]
    url_fresh_under_60000_ms [OF u ne, of 61001]
    u [of 60999] vals [of 60999] vals [of 61000] vals [of 61001]
  show ?thesis by simp
qed

theorem data_fetch_only_when_unfetched_witness:
  "fetch_data_effect demo_props initial_state = [BEGIN_FETCH_DATA] \<and>
   dataState initial_state = UNFETCHED \<and> urlIsFresh demo_props \<and>
   fetchInFlight (sys_run demo_toJSON [Render demo_props]) \<and>
   dataState (local_state (sys_run demo_toJSON [Render demo_props])) = FETCHING \<and>
   fetch_data_effect demo_props (local_state (sys_run demo_toJSON [Render demo_props])) = [] \<and>
   local_state (sys_step demo_toJSON (sys_run demo_toJSON [Render demo_props])
       (FetchSettled (Inl ''network''))) =
     initial_state\<lparr>dataState := UNFETCHED, error := Some ''network''\<rparr> \<and>
   fetch_data_guard demo_props
     (readerReducer (local_state (sys_run demo_toJSON [Render demo_props]))
        (fetch_data_settled (Inl ''network'')))"
proof -
  let ?y = "sys_run demo_toJSON [Render demo_props]"
  have start: "fetch_data_effect demo_props initial_state = [BEGIN_FETCH_DATA]"
    by (simp add: fetch_data_effect_def fetch_data_guard_def urlIsFresh_def demo_props_def
        initial_state_def)
  have inflight: "fetchInFlight ?y" and fetching: "dataState (local_state ?y) = FETCHING"
    by (simp_all add: demo_fetching_run)
  have fresh: "urlIsFresh demo_props"
    by (simp add: urlIsFresh_def demo_props_def)
  have same: "(local_state ?y)\<lparr>dataState := UNFETCHED, error := Some ''network''\<rparr> =
      initial_state\<lparr>dataState := UNFETCHED, error := Some ''network''\<rparr>"
    by (simp add: demo_fetching_run initial_state_def)
  from data_fetch_only_when_unfetched
    [of demo_props initial_state demo_toJSON "[Render demo_props]" "''network''" ?y]
    data_fetch_only_when_unfetched
    [of demo_props "local_state ?y" demo_toJSON "[Render demo_props]" "''network''" ?y]
    start inflight fetching fresh same
  show ?thesis by simp
qed

theorem non_pdf_import_is_skipped_witness:
  "attachmentItem demo_props = Some demo_item \<and> contentType demo_item \<noteq> ''application/pdf'' \<and>
   dataState (local_state (sys_run demo_toJSON [Render demo_props, FetchSettled (Inr demo_buffer)]))
     = FETCHED \<and>
   annotationsState
     (local_state (sys_run demo_toJSON [Render demo_props, FetchSettled (Inr demo_buffer)]))
     = NOT_IMPORTED \<and>
   local_state (sys_step demo_toJSON
       (sys_run demo_toJSON [Render demo_props, FetchSettled (Inr demo_buffer)])
       (Render demo_props)) =
     \<lparr>action = None, isReady = False, data = Some demo_buffer, dataState = FETCHED,
      annotationsState = IMPORTED, importedAnnotations = [], error = None\<rparr>"
proof -
  let ?evs = "[Render demo_props, FetchSettled (Inr demo_buffer)]"
  have att: "attachmentItem demo_props = Some demo_item"
    and html: "contentType demo_item \<noteq> ''application/pdf''"
    by (simp_all add: demo_props_def demo_item_def)
  have fetched: "dataState (local_state (sys_run demo_toJSON ?evs)) = FETCHED"
    and notimp: "annotationsState (local_state (sys_run demo_toJSON ?evs)) = NOT_IMPORTED"
    by (simp_all add: demo_fetched_run)
  have rest: "sys_step demo_toJSON (sys_run demo_toJSON ?evs) (Render demo_props) =
      sys_run demo_toJSON demo_events"
    by (simp add: sys_run_def demo_events_def)
  from non_pdf_import_is_skipped [OF att html fetched notimp] att html fetched notimp
  show ?thesis unfolding rest by (simp add: demo_run)
qed

theorem import_failure_still_ready_witness:
  "importInFlight (sys_run demo_toJSON
      [Render demo_pdf_props, FetchSettled (Inr demo_buffer), Render demo_pdf_props]) \<and>
   local_state (sys_step demo_toJSON
      (sys_run demo_toJSON
         [Render demo_pdf_props, FetchSettled (Inr demo_buffer), Render demo_pdf_props])
      (ImportSettled (Inl ''corrupt''))) =
     \<lparr>action = None, isReady = False, data = Some demo_buffer, dataState = FETCHED,
      annotationsState = IMPORTED, importedAnnotations = [], error = Some ''corrupt''\<rparr> \<and>
   isReady (local_state (sys_step demo_toJSON
      (sys_step demo_toJSON
         (sys_run demo_toJSON
            [Render demo_pdf_props, FetchSettled (Inr demo_buffer), Render demo_pdf_props])
         (ImportSettled (Inl ''corrupt'')))
      (Render demo_pdf_props)))"
proof -
  let ?evs = "[Render demo_pdf_props, FetchSettled (Inr demo_buffer), Render demo_pdf_props]"
  let ?y' = "sys_step demo_toJSON (sys_run demo_toJSON ?evs) (ImportSettled (Inl ''corrupt''))"
  have inflight: "importInFlight (sys_run demo_toJSON ?evs)"
    by (simp add: demo_importing_run)
  have settled: "local_state ?y' =
     \<lparr>action = None, isReady = False, data = Some demo_buffer, dataState = FETCHED,
      annotationsState = IMPORTED, importedAnnotations = [], error = Some ''corrupt''\<rparr>"
    by (simp add: demo_importing_run import_settled_def)
  have env: "isFetched demo_pdf_props \<and>
      \<not> truthy_flag (isFetchingUserLibrarySettings demo_pdf_props)"
    by (simp add: demo_pdf_props_def demo_props_def)
  from import_failure_still_ready
    [OF inflight, of "Inl ''corrupt''" "''corrupt''" ?y' demo_pdf_props] inflight settled env
  show ?thesis by simp
qed

section \<open>Properties of the diff client and of page rotation\<close>

lemma posted_foldl:
  "posted (foldl on_message c msgs) =
     posted c @ replicate (length (filter (\<lambda>m. m = WORKER_READY) msgs)) DIFF"
proof (induction msgs arbitrary: c)
  case Nil
  show ?case by simp
next
  case (Cons m msgs)
  show ?case by (cases m) (simp_all add: Cons.IH replicate_append_same)
qed

lemma outcome_settled_stays:
  "outcome c \<noteq> Pending \<Longrightarrow> outcome (foldl on_message c msgs) = outcome c"
proof (induction msgs arbitrary: c)
  case Nil
  show ?case by simp
next
  case (Cons m msgs)
  from Cons.prems have "outcome (on_message c m) = outcome c"
    by (cases m; cases "outcome c") simp_all
  with Cons show ?case by simp
qed

lemma outcome_foldl:
  "outcome c = Pending \<Longrightarrow>
     outcome (foldl on_message c msgs) = settled_by (find is_terminal msgs)"
proof (induction msgs arbitrary: c)
  case Nil
  then show ?case by simp
next
  case (Cons m msgs)
  show ?case
  proof (cases "is_terminal m")
    case True
    then have "outcome (on_message c m) = settled_by (Some m)" "settled_by (Some m) \<noteq> Pending"
      using Cons.prems by (cases m; simp)+
    then show ?thesis using True by (simp add: outcome_settled_stays)
  next
    case False
    then have "outcome (on_message c m) = Pending"
      using Cons.prems by (cases m) simp_all
    from Cons.IH [OF this] False show ?thesis by simp
  qed
qed

lemma find_terminal_filter_log:
  "find is_terminal (filter (\<lambda>m. \<not> is_log m) msgs) = find is_terminal msgs"
proof (induction msgs)
  case Nil
  show ?case by simp
next
  case (Cons m msgs)
  then show ?case by (cases m) simp_all
qed

lemma posted_filter_log:
  "filter (\<lambda>m. m = WORKER_READY) (filter (\<lambda>m. \<not> is_log m) msgs) =
   filter (\<lambda>m. m = WORKER_READY) msgs"
proof (induction msgs)
  case Nil
  show ?case by simp
next
  case (Cons m msgs)
  then show ?case by (cases m) simp_all
qed

text \<open>
  Claim C5. The client posts \<open>LOAD\<close> first, with a clone of the old file and a clone of the
  new file: two new buffers with the contents of the originals, different from each other
  and (the identities in use being below the allocator's next one) from both originals.
  After any messages of the worker, what it has posted is that \<open>LOAD\<close> followed by one
  \<open>DIFF\<close> for each \<open>READY\<close> received, so no \<open>DIFF\<close> goes out before a \<open>READY\<close>. The
  promise is settled by the first message that is \<open>DIFF_COMPLETE\<close> or \<open>DIFF_ERROR\<close>:
  resolved with the payload of the former, rejected with the payload of the latter, and
  pending while neither has arrived. Removing the \<open>LOG\<close> messages from the sequence
  leaves the outcome the same.
\<close>

theorem diff_client_protocol:
  "(\<exists>oldClone newClone.
      posted (fst (computeDiffUsingWorker fresh oldFile newFile)) = [LOAD oldClone newClone] \<and>
      bytes oldClone = bytes oldFile \<and> bytes newClone = bytes newFile \<and>
      ident oldClone \<noteq> ident newClone \<and>
      (ident oldFile < fresh \<and> ident newFile < fresh \<longrightarrow>
         ident oldClone \<notin> {ident oldFile, ident newFile} \<and>
         ident newClone \<notin> {ident oldFile, ident newFile})) \<and>
   posted (fst (diff_session fresh oldFile newFile msgs)) =
     posted (fst (computeDiffUsingWorker fresh oldFile newFile)) @
     replicate (length (filter (\<lambda>m. m = WORKER_READY) msgs)) DIFF \<and>
   outcome (fst (diff_session fresh oldFile newFile msgs)) = settled_by (find is_terminal msgs) \<and>
   outcome (fst (diff_session fresh oldFile newFile (filter (\<lambda>m. \<not> is_log m) msgs))) =
     outcome (fst (diff_session fresh oldFile newFile msgs))"
proof -
  obtain c f where init: "computeDiffUsingWorker fresh oldFile newFile = (c, f)"
    by (cases "computeDiffUsingWorker fresh oldFile newFile")
  then have c: "c = \<lparr>posted = [LOAD \<lparr>ident = fresh, bytes = bytes oldFile\<rparr>
                                   \<lparr>ident = Suc fresh, bytes = bytes newFile\<rparr>],
                     outcome = Pending, warned = []\<rparr>"
    by (auto simp: computeDiffUsingWorker_def cloneData_def)
  have pending: "outcome c = Pending" by (simp add: c)
  have session: "fst (diff_session fresh oldFile newFile ms) = foldl on_message c ms" for ms
    by (simp add: diff_session_def init)
  have 1: "\<exists>oldClone newClone.
      posted (fst (computeDiffUsingWorker fresh oldFile newFile)) = [LOAD oldClone newClone] \<and>
      bytes oldClone = bytes oldFile \<and> bytes newClone = bytes newFile \<and>
      ident oldClone \<noteq> ident newClone \<and>
      (ident oldFile < fresh \<and> ident newFile < fresh \<longrightarrow>
         ident oldClone \<notin> {ident oldFile, ident newFile} \<and>
         ident newClone \<notin> {ident oldFile, ident newFile})"
    by (simp add: init c)
  have 2: "posted (fst (diff_session fresh oldFile newFile msgs)) =
     posted (fst (computeDiffUsingWorker fresh oldFile newFile)) @
     replicate (length (filter (\<lambda>m. m = WORKER_READY) msgs)) DIFF"
    by (simp add: session init posted_foldl)
  have 3: "outcome (fst (diff_session fresh oldFile newFile ms)) = settled_by (find is_terminal ms)"
    for ms
    by (simp add: session outcome_foldl [OF pending])
  have 4: "outcome (fst (diff_session fresh oldFile newFile (filter (\<lambda>m. \<not> is_log m) msgs))) =
     outcome (fst (diff_session fresh oldFile newFile msgs))"
    by (simp add: 3 find_terminal_filter_log)
  from 1 2 3 [of msgs] 4 show ?thesis by blast
qed

theorem diff_client_protocol_witness:
  "ident demo_buffer < 5 \<and> ident demo_new_buffer < 5 \<and>
   posted (fst (diff_session 5 demo_buffer demo_new_buffer
      [LOG ''loading'', WORKER_READY, LOG ''diffing'', DIFF_COMPLETE ''delta'', DIFF_ERROR ''late''])) =
     [LOAD \<lparr>ident = 5, bytes = [1, 2, 3]\<rparr> \<lparr>ident = 6, bytes = [1, 2, 4]\<rparr>, DIFF] \<and>
   outcome (fst (diff_session 5 demo_buffer demo_new_buffer
      [LOG ''loading'', WORKER_READY, LOG ''diffing'', DIFF_COMPLETE ''delta'', DIFF_ERROR ''late''])) =
     Resolved ''delta'' \<and>
   outcome (fst (diff_session 5 demo_buffer demo_new_buffer
      [WORKER_READY, DIFF_COMPLETE ''delta'', DIFF_ERROR ''late''])) = Resolved ''delta''"
proof -
  let ?msgs = "[LOG ''loading'', WORKER_READY, LOG ''diffing'', DIFF_COMPLETE ''delta'',
                DIFF_ERROR ''late'']"
  have ids: "ident demo_buffer < 5 \<and> ident demo_new_buffer < 5"
    by (simp add: demo_buffer_def demo_new_buffer_def)
  have load: "posted (fst (computeDiffUsingWorker 5 demo_buffer demo_new_buffer)) =
      [LOAD \<lparr>ident = 5, bytes = [1, 2, 3]\<rparr> \<lparr>ident = 6, bytes = [1, 2, 4]\<rparr>]"
    by (simp add: computeDiffUsingWorker_def cloneData_def demo_buffer_def demo_new_buffer_def)
  have nolog: "filter (\<lambda>m. \<not> is_log m) ?msgs =
      [WORKER_READY, DIFF_COMPLETE ''delta'', DIFF_ERROR ''late'']"
    by simp
  from diff_client_protocol [of 5 demo_buffer demo_new_buffer ?msgs] ids load
  show ?thesis unfolding nolog by simp
qed

lemma store_dispatches_append:
  "store_dispatches (xs @ ys) = store_dispatches xs @ store_dispatches ys"
  by (induction xs rule: store_dispatches.induct) simp_all

lemma store_dispatches_posts: "store_dispatches (map DiffWorkerPost ms) = []"
  by (induction ms) simp_all

lemma diff_session_outcome:
  "outcome (fst (diff_session fresh oldFile newFile msgs)) = settled_by (find is_terminal msgs)"
  by (simp add: diff_session_def computeDiffUsingWorker_def cloneData_def outcome_foldl)

lemma diff_session_fresh: "snd (diff_session fresh oldFile newFile msgs) = Suc (Suc fresh)"
  by (simp add: diff_session_def computeDiffUsingWorker_def cloneData_def)

lemma rotatePages_store:
  "store_dispatches
     (rotatePages fresh att baseURI oldBuf pageIndexes degrees (Inr content) msgs) =
   (case settled_by (find is_terminal msgs) of
      Pending \<Rightarrow> []
    | Resolved diff \<Rightarrow>
        [PatchAttachment (key att) \<lparr>ident = Suc fresh, bytes = content\<rparr> diff]
    | Rejected e \<Rightarrow>
        [UploadAttachment (key att) (filename att) \<lparr>ident = Suc (Suc (Suc (Suc (Suc (Suc fresh))))), bytes = content\<rparr>])"
proof -
  let ?m = "\<lparr>ident = Suc fresh, bytes = content\<rparr>"
  obtain client f4 where ds: "diff_session (Suc (Suc (Suc (Suc fresh)))) oldBuf ?m msgs = (client, f4)"
    by (cases "diff_session (Suc (Suc (Suc (Suc fresh)))) oldBuf ?m msgs")
  have out: "outcome client = settled_by (find is_terminal msgs)"
    using diff_session_outcome [of "Suc (Suc (Suc (Suc fresh)))" oldBuf ?m msgs] by (simp add: ds)
  have f4: "f4 = Suc (Suc (Suc (Suc (Suc (Suc fresh)))))"
    using diff_session_fresh [of "Suc (Suc (Suc (Suc fresh)))" oldBuf ?m msgs] by (simp add: ds)
  show ?thesis
    by (simp add: rotatePages_def cloneData_def Let_def ds out f4 store_dispatches_append
        store_dispatches_posts split: promise.splits)
qed

lemma rotatePages_rejected:
  "store_dispatches
     (rotatePages fresh att baseURI oldBuf pageIndexes degrees (Inl e) msgs) = []"
  by (simp add: rotatePages_def cloneData_def)

text \<open>
  Claim C3, as amended. After a rotation whose diff promise resolves with \<open>diff\<close>, the
  store receives exactly one action, \<open>patchAttachment\<close> with the attachment's key, the
  whole modified buffer and \<open>diff\<close> (so no upload); after one whose diff promise rejects,
  it receives exactly one action, \<open>uploadAttachment\<close> with the key, the file name and a
  buffer holding the whole modified content (so no patch).
\<close>

theorem rotation_patch_or_upload:
  "(find is_terminal msgs = Some (DIFF_COMPLETE diff) \<longrightarrow>
      (\<exists>modifiedBuf.
         store_dispatches
           (rotatePages fresh att baseURI oldBuf pageIndexes degrees (Inr content) msgs) =
           [PatchAttachment (key att) modifiedBuf diff] \<and>
         bytes modifiedBuf = content) \<and>
      filter is_upload (store_dispatches
        (rotatePages fresh att baseURI oldBuf pageIndexes degrees (Inr content) msgs)) = []) \<and>
   (find is_terminal msgs = Some (DIFF_ERROR e) \<longrightarrow>
      (\<exists>file.
         store_dispatches
           (rotatePages fresh att baseURI oldBuf pageIndexes degrees (Inr content) msgs) =
           [UploadAttachment (key att) (filename att) file] \<and>
         bytes file = content) \<and>
      filter is_patch (store_dispatches
        (rotatePages fresh att baseURI oldBuf pageIndexes degrees (Inr content) msgs)) = [])"
  by (simp add: rotatePages_store)

theorem rotation_patch_or_upload_witness:
  "find is_terminal [WORKER_READY, DIFF_COMPLETE ''delta''] = Some (DIFF_COMPLETE ''delta'') \<and>
   find is_terminal [WORKER_READY, LOG ''out of memory'', DIFF_ERROR ''failed''] =
     Some (DIFF_ERROR ''failed'') \<and>
   (\<exists>modifiedBuf.
      store_dispatches
        (rotatePages 1 demo_pdf (Some ''https://files.example/paper'') demo_buffer [0] 90
           (Inr [9, 9]) [WORKER_READY, DIFF_COMPLETE ''delta'']) =
        [PatchAttachment ''ATTACH02'' modifiedBuf ''delta''] \<and> bytes modifiedBuf = [9, 9]) \<and>
   (\<exists>file.
      store_dispatches
        (rotatePages 1 demo_pdf (Some ''https://files.example/paper'') demo_buffer [0] 90
           (Inr [9, 9]) [WORKER_READY, LOG ''out of memory'', DIFF_ERROR ''failed'']) =
        [UploadAttachment ''ATTACH02'' ''paper.pdf'' file] \<and> bytes file = [9, 9])"
proof -
  have ok: "find is_terminal [WORKER_READY, DIFF_COMPLETE ''delta''] =
      Some (DIFF_COMPLETE ''delta'')"
    by simp
  have bad: "find is_terminal [WORKER_READY, LOG ''out of memory'', DIFF_ERROR ''failed''] =
      Some (DIFF_ERROR ''failed'')"
    by simp
  have att: "key demo_pdf = ''ATTACH02'' \<and> filename demo_pdf = ''paper.pdf''"
    by (simp add: demo_pdf_def)
  from rotation_patch_or_upload
      [of "[WORKER_READY, DIFF_COMPLETE ''delta'']" "''delta''" 1 demo_pdf
          "Some ''https://files.example/paper''" demo_buffer "[0]" 90 "[9, 9]" "''failed''"]
    rotation_patch_or_upload
      [of "[WORKER_READY, LOG ''out of memory'', DIFF_ERROR ''failed'']" "''delta''" 1 demo_pdf
          "Some ''https://files.example/paper''" demo_buffer "[0]" 90 "[9, 9]" "''failed''"]
    ok bad att
  show ?thesis by simp
qed

text \<open>
  Claim C3 as stated says that the patch call carries the diff and never the full buffer.
  At this input the one action dispatched is \<open>patchAttachment\<close>, and it carries the whole
  rotated buffer \<open>[9, 9]\<close> next to the diff.
\<close>

theorem patch_call_carries_full_buffer:
  "store_dispatches
     (rotatePages 1 demo_pdf (Some ''https://files.example/paper'') demo_buffer [0] 90
        (Inr [9, 9]) [WORKER_READY, DIFF_COMPLETE ''delta'']) =
     [PatchAttachment ''ATTACH02'' \<lparr>ident = 2, bytes = [9, 9]\<rparr> ''delta''] \<and>
   map bytes (buffers_sent_to_store
     (rotatePages 1 demo_pdf (Some ''https://files.example/paper'') demo_buffer [0] 90
        (Inr [9, 9]) [WORKER_READY, DIFF_COMPLETE ''delta''])) = [[9, 9]]"
  by (simp add: rotatePages_store buffers_sent_to_store_def demo_pdf_def)

section \<open>Properties of the export dialog\<close>

lemma export_fileName_found:
  "find (\<lambda>f. format_key f = X) exportFormats = Some f \<Longrightarrow>
     export_fileName exportFormats X =
       Inr (if truthy_string (extension f) then ''export-data.'' @ the (extension f)
            else ''export-data'')"
  by (simp add: export_fileName_def)





text \<open>A rejected export ends the handler after its first part: nothing is saved and the
  busy flag stays set. A format the table lacks ends it before anything is set.\<close>

lemma handleExport_rejected:
  "find (\<lambda>f. format_key f = format st) exportFormats = Some f \<Longrightarrow>
     handleExport exportFormats itemKeys st (Inl e) =
       Inr (st\<lparr>modal_isBusy := True\<rparr>, [ExportItems itemKeys (format st)])"
  by (simp add: handleExport_def handleExport_begin_def handleExport_resume_def
      export_fileName_found)

lemma handleExport_unknown_format:
  "find (\<lambda>f. format_key f = format st) exportFormats = None \<Longrightarrow>
     handleExport exportFormats itemKeys st settled = Inl ''TypeError''"
  by (simp add: handleExport_def handleExport_begin_def export_fileName_def)




end
